theory Spec2Isabelle
  imports Main "HOL-Library.Sublist"
begin

section \<open>JavaScript strings\<close>

text \<open>
  A JavaScript string is a sequence of UTF-16 code units; a code unit is modelled by its
  number. The Hangul syllables of the product vocabulary are one code unit each.
  \<open>js\<close> writes an ASCII literal.
\<close>

type_synonym jsstring = "nat list"

definition js :: "string \<Rightarrow> jsstring" where
  "js s = map of_char s"

text \<open>
  The characters removed by \<open>String.prototype.trim\<close> and matched by the regular
  expression class \<open>\s\<close>: ECMAScript WhiteSpace and LineTerminator.
\<close>

definition isWhiteSpace :: "nat \<Rightarrow> bool" where
  "isWhiteSpace c =
     (c = 9 \<or> c = 10 \<or> c = 11 \<or> c = 12 \<or> c = 13 \<or> c = 32 \<or> c = 160 \<or> c = 5760
      \<or> (8192 \<le> c \<and> c \<le> 8202) \<or> c = 8232 \<or> c = 8233 \<or> c = 8239 \<or> c = 8287
      \<or> c = 12288 \<or> c = 65279)"

definition trimStart :: "jsstring \<Rightarrow> jsstring" where
  "trimStart s = dropWhile isWhiteSpace s"

definition trim :: "jsstring \<Rightarrow> jsstring" where
  "trim s = rev (dropWhile isWhiteSpace (rev (dropWhile isWhiteSpace s)))"

text \<open>\<open>s.includes(k)\<close>: \<open>k\<close> occurs in \<open>s\<close> as a contiguous run.\<close>

fun includesJs :: "jsstring \<Rightarrow> jsstring \<Rightarrow> bool" where
  "includesJs [] k = (k = [])"
| "includesJs (c # cs) k = (prefix k (c # cs) \<or> includesJs cs k)"

text \<open>
  \<open>s.split(/\s+/)\<close>: the pieces of \<open>s\<close> between maximal runs of white space. A run
  at the start or at the end of \<open>s\<close> leaves an empty piece there, and the empty string
  splits into one empty piece.
\<close>

fun splitWs :: "jsstring \<Rightarrow> jsstring list" where
  "splitWs [] = [[]]"
| "splitWs (c # cs) =
     (if isWhiteSpace c then
        (case cs of
           [] \<Rightarrow> [[], []]
         | d # _ \<Rightarrow> if isWhiteSpace d then splitWs cs else [] # splitWs cs)
      else
        (case splitWs cs of
           [] \<Rightarrow> [[c]]
         | t # ts \<Rightarrow> (c # t) # ts))"

section \<open>The product normalizer\<close>

text \<open>
  The table of \<open>normalizeProduct\<close>, in the order in which \<open>Object.entries\<close> lists
  it: the canonical name and its accepted spellings.
\<close>

definition keyBig :: jsstring where
  "keyBig = [0xD070, 0xAC70]"

definition keyGreen :: jsstring where
  "keyGreen = [0xB179, 0xC0C9]"

definition keyBlue :: jsstring where
  "keyBlue = [0xD30C, 0xB791]"

definition mapping :: "(jsstring \<times> jsstring list) list" where
  "mapping =
     [(keyBig,
        [[0xADFC, 0xAC70], [0xD070, 0xAC70], [0xD070, 0xAC83], [0xD06C, 0xAC70],
         [0xD07C, 0xAC70], [0xD070], [0xB300]]),
      (keyGreen,
        [[0xB179, 0xC0C9], [0xB179, 0xC139], [0xB178, 0xC0C9], [0xB205, 0xC0C9],
         [0xB179, 0xC0C9, 0xC0C9], [0xCD08, 0xB85D], [0xCD08, 0xB85D, 0xC0C9],
         [0xADF8, 0xB9B0]]),
      (keyBlue,
        [[0xD30C, 0xB791], [0xD30C, 0xB791, 0xC0C9], [0xD30C, 0xB780], [0xD30C, 0xB77C],
         [0xD37C, 0xB801], [0xD30C, 0xB791, 0xC774], [0xD30C, 0xB791, 0xC0C9],
         [0xBE14, 0xB8E8]])]"

text \<open>The test of the loop body, for one entry of the table.\<close>

definition entryMatches :: "jsstring \<Rightarrow> jsstring \<times> jsstring list \<Rightarrow> bool" where
  "entryMatches trimmedProduct e =
     (trimmedProduct \<in> set (snd e) \<or> includesJs trimmedProduct (fst e))"

text \<open>
  \<open>normalizeProduct\<close> on a string. The empty string is falsy and is returned at once;
  the first entry that matches gives its key; with no match the argument is returned as
  it came (not trimmed).
\<close>

definition normalizeProduct :: "jsstring \<Rightarrow> jsstring" where
  "normalizeProduct product =
     (if product = [] then product
      else (case find (entryMatches (trim product)) mapping of
              Some e \<Rightarrow> fst e
            | None \<Rightarrow> product))"

section \<open>The fast parser\<close>

text \<open>
  \<open>parseInt\<close> with no radix: leading white space is dropped, then an optional sign,
  then an optional \<open>0x\<close> or \<open>0X\<close> that selects radix 16, then the longest run of
  digits of the radix; what follows is ignored. No digit gives NaN, here \<open>None\<close>.
  The value is an unbounded integer: JavaScript rounds it to a double, which is the
  same number up to \<open>2 ^ 53\<close>.
\<close>

definition digitValue :: "nat \<Rightarrow> nat option" where
  "digitValue c =
     (if 48 \<le> c \<and> c \<le> 57 then Some (c - 48)
      else if 97 \<le> c \<and> c \<le> 122 then Some (c - 87)
      else if 65 \<le> c \<and> c \<le> 90 then Some (c - 55)
      else None)"

definition isRadixDigit :: "nat \<Rightarrow> nat \<Rightarrow> bool" where
  "isRadixDigit r c = (case digitValue c of Some d \<Rightarrow> d < r | None \<Rightarrow> False)"

definition digitsValue :: "nat \<Rightarrow> jsstring \<Rightarrow> nat" where
  "digitsValue r z = foldl (\<lambda>acc c. acc * r + the (digitValue c)) 0 z"

definition parseDigits :: "nat \<Rightarrow> jsstring \<Rightarrow> nat option" where
  "parseDigits r s =
     (let z = takeWhile (isRadixDigit r) s
      in if z = [] then None else Some (digitsValue r z))"

definition parseUnsigned :: "jsstring \<Rightarrow> nat option" where
  "parseUnsigned s =
     (case s of
        c # d # rest \<Rightarrow>
          if c = 48 \<and> (d = 120 \<or> d = 88) then parseDigits 16 rest else parseDigits 10 s
      | _ \<Rightarrow> parseDigits 10 s)"

definition parseInt :: "jsstring \<Rightarrow> int option" where
  "parseInt inputString =
     (case trimStart inputString of
        [] \<Rightarrow> None
      | c # rest \<Rightarrow>
          if c = 45 then map_option (\<lambda>n. - int n) (parseUnsigned rest)
          else if c = 43 then map_option int (parseUnsigned rest)
          else map_option int (parseUnsigned (c # rest)))"

text \<open>
  The object that \<open>fastParse\<close> pushes: \<open>{ company, product, count, ts: null }\<close>.
  \<open>ts\<close> is \<open>None\<close> for \<open>null\<close>.
\<close>

record orderLine =
  company :: jsstring
  product :: jsstring
  count :: int
  ts :: "jsstring option"

text \<open>
  The loop of \<open>fastParse\<close> over \<open>parts[1..]\<close>, two tokens at a time, with the
  results so far. \<open>parts[i + 1]\<close> past the end is \<open>undefined\<close>, which \<open>parseInt\<close>
  turns into NaN. The first pair that fails ends the whole parse with \<open>null\<close>.
\<close>

fun fastLoop :: "jsstring \<Rightarrow> jsstring list \<Rightarrow> orderLine list \<Rightarrow> orderLine list option" where
  "fastLoop cname [] results = Some results"
| "fastLoop cname [p] results = None"
| "fastLoop cname (p # countStr # rest) results =
     (if p \<noteq> [] then
        (case parseInt countStr of
           Some n \<Rightarrow>
             fastLoop cname rest
               (results @ [\<lparr>company = cname, product = normalizeProduct p, count = n, ts = None\<rparr>])
         | None \<Rightarrow> None)
      else None)"

definition fastParse :: "jsstring \<Rightarrow> orderLine list option" where
  "fastParse text =
     (let parts = splitWs (trim text)
      in if length parts < 3 then None
         else (case fastLoop (hd parts) (tl parts) [] of
                 Some results \<Rightarrow> if length results > 0 then Some results else None
               | None \<Rightarrow> None))"

section \<open>The AI fallback parser and the parsing pipeline\<close>

text \<open>
  What a function can throw or reject with. \<open>ApiError\<close> is a failed request to the
  spreadsheet service, with its status code; \<open>SheetError\<close> is the error that
  \<open>ensureSheetExists\<close> makes from one, whose message depends on the code.
\<close>

datatype error =
    MissingGeminiKey
  | TypeError
  | SyntaxError
  | MissingServiceAccount
  | BadServiceAccount
  | ApiError nat
  | SheetError nat

text \<open>
  The values that \<open>JSON.parse\<close> produces, and \<open>undefined\<close>. An object is the list of
  its properties in property order. Numbers are kept as integers; no function below looks
  at a number except to test whether it is zero.
\<close>

datatype jsval =
    JUndefined
  | JNull
  | JBool bool
  | JNum int
  | JStr jsstring
  | JArr "jsval list"
  | JObj "(jsstring \<times> jsval) list"

fun truthy :: "jsval \<Rightarrow> bool" where
  "truthy JUndefined = False"
| "truthy JNull = False"
| "truthy (JBool b) = b"
| "truthy (JNum n) = (n \<noteq> 0)"
| "truthy (JStr s) = (s \<noteq> [])"
| "truthy (JArr xs) = True"
| "truthy (JObj fs) = True"

text \<open>
  \<open>normalizeProduct\<close> on any value: a falsy value is returned as it is, a string is
  normalized, and any other value has no \<open>trim\<close> method, which is a TypeError.
\<close>

fun normalizeProductVal :: "jsval \<Rightarrow> error + jsval" where
  "normalizeProductVal (JStr s) = Inr (JStr (normalizeProduct s))"
| "normalizeProductVal v = (if truthy v then Inl TypeError else Inr v)"

text \<open>\<open>item.product\<close>: a TypeError on \<open>null\<close> and \<open>undefined\<close>.\<close>

fun getProduct :: "jsval \<Rightarrow> error + jsval" where
  "getProduct JUndefined = Inl TypeError"
| "getProduct JNull = Inl TypeError"
| "getProduct (JObj fs) =
     Inr (case map_of fs (js ''product'') of Some v \<Rightarrow> v | None \<Rightarrow> JUndefined)"
| "getProduct v = Inr JUndefined"

text \<open>The decimal form of an array index, as a property key.\<close>

fun showNat :: "nat \<Rightarrow> jsstring" where
  "showNat n = (if n < 10 then [48 + n] else showNat (n div 10) @ [48 + n mod 10])"

declare showNat.simps [simp del]

text \<open>
  The own enumerable properties that \<open>{...item}\<close> copies: those of an object, the
  indexed characters of a string, the indexed elements of an array, none otherwise.
\<close>

fun spreadProps :: "jsval \<Rightarrow> (jsstring \<times> jsval) list" where
  "spreadProps (JObj fs) = fs"
| "spreadProps (JStr s) = zip (map showNat [0..<length s]) (map (\<lambda>c. JStr [c]) s)"
| "spreadProps (JArr xs) = zip (map showNat [0..<length xs]) xs"
| "spreadProps v = []"

text \<open>
  Setting a property in an object literal after a spread: a property that is there keeps
  its place and takes the new value, a new one goes to the end.
\<close>

definition setProp :: "jsstring \<Rightarrow> jsval \<Rightarrow> (jsstring \<times> jsval) list \<Rightarrow> (jsstring \<times> jsval) list" where
  "setProp k v fs =
     (if k \<in> fst ` set fs then map (\<lambda>(k', v'). if k' = k then (k', v) else (k', v')) fs
      else fs @ [(k, v)])"

text \<open>The callback of \<open>parsed.map\<close>.\<close>

definition mapItem :: "jsval \<Rightarrow> error + jsval" where
  "mapItem item =
     (case getProduct item of
        Inl e \<Rightarrow> Inl e
      | Inr p \<Rightarrow>
          (case normalizeProductVal p of
             Inl e \<Rightarrow> Inl e
           | Inr p' \<Rightarrow> Inr (JObj (setProp (js ''product'') p' (spreadProps item)))))"

fun mapItems :: "jsval list \<Rightarrow> error + jsval list" where
  "mapItems [] = Inr []"
| "mapItems (item # items) =
     (case mapItem item of
        Inl e \<Rightarrow> Inl e
      | Inr v \<Rightarrow> (case mapItems items of Inl e \<Rightarrow> Inl e | Inr vs \<Rightarrow> Inr (v # vs)))"

text \<open>\<open>.replace(/```json|```/g, "")\<close>: every fence is removed, left to right.\<close>

definition fenceJson :: jsstring where
  "fenceJson = [96, 96, 96, 106, 115, 111, 110]"

definition fence :: jsstring where
  "fence = [96, 96, 96]"

fun stripFences :: "jsstring \<Rightarrow> jsstring" where
  "stripFences [] = []"
| "stripFences (c # cs) =
     (if prefix fenceJson (c # cs) then stripFences (drop 6 cs)
      else if prefix fence (c # cs) then stripFences (drop 2 cs)
      else c # stripFences cs)"

text \<open>
  What \<open>aiParse\<close> reads from outside: the configured key (\<open>None\<close> when the
  configuration has none), the extraction service, as the text of its reply to the prompt
  built around a message (\<open>None\<close> when the call or reading the reply throws), and
  \<open>JSON.parse\<close> (\<open>None\<close> when it throws a SyntaxError).
\<close>

record aiEnv =
  GEMINI_API_KEY :: "jsstring option"
  generateContent :: "jsstring \<Rightarrow> jsstring option"
  jsonParse :: "jsstring \<Rightarrow> jsval option"

datatype event =
    AiParseCalled jsstring
  | GenerateContentCalled jsstring
  | ConsoleError

definition keyPresent :: "aiEnv \<Rightarrow> bool" where
  "keyPresent env = (case GEMINI_API_KEY env of None \<Rightarrow> False | Some k \<Rightarrow> k \<noteq> [])"

text \<open>
  The body of the \<open>try\<close> block after the reply has arrived: strip the fences, trim,
  decode, and map the items. \<open>parsed.map\<close> is a TypeError unless \<open>parsed\<close> is an
  array.
\<close>

definition decodeReply :: "aiEnv \<Rightarrow> jsstring \<Rightarrow> error + jsval list" where
  "decodeReply env raw =
     (case jsonParse env (trim (stripFences raw)) of
        None \<Rightarrow> Inl SyntaxError
      | Some parsed \<Rightarrow> (case parsed of JArr items \<Rightarrow> mapItems items | _ \<Rightarrow> Inl TypeError))"

text \<open>
  \<open>aiParse\<close>, with the trace of what it did. The test of the key comes before the
  \<open>try\<close> block, so its error leaves the function; every error inside the block is
  caught, logged and answered with the empty array. Choosing the model name and building
  the client, between the two, do not fail.
\<close>

definition aiParse :: "aiEnv \<Rightarrow> jsstring \<Rightarrow> (error + jsval list) \<times> event list" where
  "aiParse env text =
     (if \<not> keyPresent env then (Inl MissingGeminiKey, [AiParseCalled text])
      else
        (case generateContent env text of
           None \<Rightarrow> (Inr [], [AiParseCalled text, GenerateContentCalled text, ConsoleError])
         | Some raw \<Rightarrow>
             (case decodeReply env raw of
                Inl e \<Rightarrow> (Inr [], [AiParseCalled text, GenerateContentCalled text, ConsoleError])
              | Inr items \<Rightarrow> (Inr items, [AiParseCalled text, GenerateContentCalled text]))))"

text \<open>
  \<open>parseMessage\<close>: the fast parser first; an array is truthy, \<open>null\<close> is not.
\<close>

datatype parsed = FastLines "orderLine list" | AiLines "jsval list"

definition parseMessage :: "aiEnv \<Rightarrow> jsstring \<Rightarrow> (error + parsed) \<times> event list" where
  "parseMessage env text =
     (case fastParse text of
        Some quickResult \<Rightarrow> (Inr (FastLines quickResult), [])
      | None \<Rightarrow>
          (case aiParse env text of
             (Inl e, tr) \<Rightarrow> (Inl e, tr)
           | (Inr items, tr) \<Rightarrow> (Inr (AiLines items), tr)))"

section \<open>The event deduplicator\<close>

text \<open>
  \<open>processedEvents\<close> is a JavaScript \<open>Set\<close>, which keeps its elements in the order
  of their insertion: it is the list of its elements, oldest first, without repetition.
\<close>

definition CACHE_SIZE :: nat where
  "CACHE_SIZE = 100"

definition setHas :: "jsstring list \<Rightarrow> jsstring \<Rightarrow> bool" where
  "setHas s x = (x \<in> set s)"

definition setAdd :: "jsstring list \<Rightarrow> jsstring \<Rightarrow> jsstring list" where
  "setAdd s x = (if x \<in> set s then s else s @ [x])"

definition setDelete :: "jsstring list \<Rightarrow> jsstring \<Rightarrow> jsstring list" where
  "setDelete s x = removeAll x s"

text \<open>
  The fields of the request body that \<open>shouldSkipEvent\<close> reads; \<open>None\<close> is a missing
  field. An empty \<open>event_id\<close> and an \<open>event_time\<close> of zero are falsy.
\<close>

record eventBody =
  event_id :: "jsstring option"
  event_time :: "int option"

text \<open>
  \<open>shouldSkipEvent\<close>, with \<open>Date.now()\<close> in milliseconds as an argument: the answer
  and the set afterwards.
\<close>

definition shouldSkipEvent ::
    "int \<Rightarrow> eventBody option \<Rightarrow> jsstring list \<Rightarrow> bool \<times> jsstring list" where
  "shouldSkipEvent dateNow body processedEvents =
     (case body of
        None \<Rightarrow> (False, processedEvents)
      | Some b \<Rightarrow>
          (case event_id b of
             None \<Rightarrow> (False, processedEvents)
           | Some eid \<Rightarrow>
               if eid = [] then (False, processedEvents)
               else if setHas processedEvents eid then (True, processedEvents)
               else
                 (let currentTime = dateNow div 1000 in
                  if (case event_time b of
                        None \<Rightarrow> False
                      | Some t \<Rightarrow> t \<noteq> 0 \<and> currentTime - t > 60)
                  then (True, processedEvents)
                  else
                    (let added = setAdd processedEvents eid in
                     if length added > CACHE_SIZE then
                       (case added of
                          [] \<Rightarrow> (False, added)
                        | firstItem # _ \<Rightarrow> (False, setDelete added firstItem))
                     else (False, added)))))"

text \<open>
  The duplicate check at the head of the \<open>approve_order\<close> handler: whether the click is
  dropped, and the set afterwards. The trigger id is added with no test of the size.
\<close>

definition approveOrderDedup :: "jsstring \<Rightarrow> jsstring list \<Rightarrow> bool \<times> jsstring list" where
  "approveOrderDedup trigger_id processedEvents =
     (if setHas processedEvents trigger_id then (True, processedEvents)
      else (False, setAdd processedEvents trigger_id))"

text \<open>A sequence of clicks on the approve button, by their trigger ids.\<close>

fun approveClicks :: "jsstring list \<Rightarrow> jsstring list \<Rightarrow> jsstring list" where
  "approveClicks [] processedEvents = processedEvents"
| "approveClicks (trigger_id # more_ids) processedEvents =
     approveClicks more_ids (snd (approveOrderDedup trigger_id processedEvents))"

text \<open>The trigger ids \<open>T0\<close>, \<open>T1\<close>, ... of \<open>n\<close> clicks.\<close>

definition triggerIds :: "nat \<Rightarrow> jsstring list" where
  "triggerIds n = map (\<lambda>k. 84 # showNat k) [0..<n]"

section \<open>The spreadsheet\<close>

text \<open>
  The spreadsheet is the list of its sheets in tab order; a sheet is its title and its
  rows from the top, as \<open>values.get\<close> returns them for the range \<open>A:Z\<close>; a cell is a
  string, a number or a boolean. Titles are the identity of a sheet. The store keeps a
  written row as it was written.

  Every request to the service can fail: \<open>faults\<close> lists, for the requests to come, the
  status code of the failure or \<open>None\<close> for success, and is used up one entry per
  request; past its end every request succeeds. \<open>console\<close> holds the lines written by
  \<open>console.warn\<close> and \<open>console.error\<close>.
\<close>

datatype cell = CStr jsstring | CNum int | CBool bool

type_synonym sheetRow = "cell list"

type_synonym sheet = "jsstring \<times> sheetRow list"

datatype logEntry =
    AuthSetupError
  | SheetAccessError
  | MasterAppendWarning jsstring
  | CompanyAppendError jsstring
  | AppendDataError

record world =
  sheets :: "sheet list"
  faults :: "nat option list"
  console :: "logEntry list"

definition takeFault :: "world \<Rightarrow> nat option \<times> world" where
  "takeFault w = (case faults w of [] \<Rightarrow> (None, w) | f # fs \<Rightarrow> (f, w\<lparr>faults := fs\<rparr>))"

definition updateSheet ::
    "jsstring \<Rightarrow> (sheetRow list \<Rightarrow> sheetRow list) \<Rightarrow> sheet list \<Rightarrow> sheet list" where
  "updateSheet name f ss = map (\<lambda>(t, rs). if t = name then (t, f rs) else (t, rs)) ss"

text \<open>
  The requests. A request that names a sheet that is not there fails with status 400, and
  so does adding a sheet under a title that is taken.
\<close>

definition sheetsGet :: "world \<Rightarrow> (error + jsstring list) \<times> world" where
  "sheetsGet w =
     (case takeFault w of
        (Some code, w') \<Rightarrow> (Inl (ApiError code), w')
      | (None, w') \<Rightarrow> (Inr (map fst (sheets w')), w'))"

definition addSheet :: "jsstring \<Rightarrow> world \<Rightarrow> (error + unit) \<times> world" where
  "addSheet name w =
     (case takeFault w of
        (Some code, w') \<Rightarrow> (Inl (ApiError code), w')
      | (None, w') \<Rightarrow>
          if name \<in> set (map fst (sheets w')) then (Inl (ApiError 400), w')
          else (Inr (), w'\<lparr>sheets := sheets w' @ [(name, [])]\<rparr>))"

text \<open>\<open>values.update\<close> at \<open>A1\<close> with one row: the row is written over the first row.\<close>

definition valuesUpdateA1 :: "jsstring \<Rightarrow> sheetRow \<Rightarrow> world \<Rightarrow> (error + unit) \<times> world" where
  "valuesUpdateA1 name r w =
     (case takeFault w of
        (Some code, w') \<Rightarrow> (Inl (ApiError code), w')
      | (None, w') \<Rightarrow>
          if name \<notin> set (map fst (sheets w')) then (Inl (ApiError 400), w')
          else (Inr (), w'\<lparr>sheets := updateSheet name
                  (\<lambda>rs. case rs of [] \<Rightarrow> [r] | r0 # below \<Rightarrow> (r @ drop (length r) r0) # below)
                  (sheets w')\<rparr>))"

definition valuesAppend :: "jsstring \<Rightarrow> sheetRow \<Rightarrow> world \<Rightarrow> (error + unit) \<times> world" where
  "valuesAppend name r w =
     (case takeFault w of
        (Some code, w') \<Rightarrow> (Inl (ApiError code), w')
      | (None, w') \<Rightarrow>
          if name \<notin> set (map fst (sheets w')) then (Inl (ApiError 400), w')
          else (Inr (), w'\<lparr>sheets := updateSheet name (\<lambda>rs. rs @ [r]) (sheets w')\<rparr>))"



text \<open>
  The configured service account key: absent, present but not decoding to an object with
  \<open>client_email\<close> and \<open>private_key\<close>, or good.
\<close>

datatype serviceAccountKey = NoKey | BadKey | GoodKey

definition getSheetsClient :: "serviceAccountKey \<Rightarrow> world \<Rightarrow> (error + unit) \<times> world" where
  "getSheetsClient key w =
     (case key of
        NoKey \<Rightarrow> (Inl MissingServiceAccount, w)
      | BadKey \<Rightarrow> (Inl BadServiceAccount, w\<lparr>console := console w @ [AuthSetupError]\<rparr>)
      | GoodKey \<Rightarrow> (Inr (), w))"

definition headerRow :: sheetRow where
  "headerRow =
     [CStr [0xC5C5, 0xCCB4, 0xBA85], CStr [0xC81C, 0xD488, 0xBA85], CStr [0xAC2F, 0xC218],
      CStr (js ''Slack_TS''), CStr [0xB0A0, 0xC9DC], CStr [0xBE44, 0xACE0]]"

text \<open>The \<open>try\<close> block of \<open>ensureSheetExists\<close>, and the function with its \<open>catch\<close>.\<close>

definition ensureBody :: "jsstring \<Rightarrow> world \<Rightarrow> (error + unit) \<times> world" where
  "ensureBody sheetName w =
     (case sheetsGet w of
        (Inl e, w1) \<Rightarrow> (Inl e, w1)
      | (Inr titles, w1) \<Rightarrow>
          if sheetName \<in> set titles then (Inr (), w1)
          else
            (case addSheet sheetName w1 of
               (Inl e, w2) \<Rightarrow> (Inl e, w2)
             | (Inr _, w2) \<Rightarrow> valuesUpdateA1 sheetName headerRow w2))"

definition wrapSheetError :: "error \<Rightarrow> error" where
  "wrapSheetError e = (case e of ApiError code \<Rightarrow> SheetError code | _ \<Rightarrow> SheetError 0)"

definition ensureSheetExists :: "serviceAccountKey \<Rightarrow> jsstring \<Rightarrow> world \<Rightarrow> (error + unit) \<times> world" where
  "ensureSheetExists key sheetName w =
     (case getSheetsClient key w of
        (Inl e, w1) \<Rightarrow> (Inl e, w1)
      | (Inr _, w1) \<Rightarrow>
          (case ensureBody sheetName w1 of
             (Inl e, w2) \<Rightarrow> (Inl (wrapSheetError e), w2\<lparr>console := console w2 @ [SheetAccessError]\<rparr>)
           | (Inr u, w2) \<Rightarrow> (Inr u, w2)))"

text \<open>
  The row that \<open>appendData\<close> writes for an item at the time \<open>now\<close>: the timestamp of
  the message follows an apostrophe, and \<open>null\<close> is written out.
\<close>

definition makeRow :: "jsstring \<Rightarrow> orderLine \<Rightarrow> sheetRow" where
  "makeRow now item =
     [CStr (company item), CStr (product item), CNum (count item),
      CStr (39 # (case ts item of None \<Rightarrow> js ''null'' | Some t \<Rightarrow> t)), CStr now]"

text \<open>
  The body of the loop of \<open>appendData\<close>. The write to the first sheet: a failure is
  warned about and the world goes on. The write to the sheet of the company, after making
  sure that the sheet is there: a failure is logged and thrown again.
\<close>

definition masterWrite :: "jsstring \<Rightarrow> sheetRow \<Rightarrow> world \<Rightarrow> world" where
  "masterWrite firstSheetName r w =
     (case valuesAppend firstSheetName r w of
        (Inl e, w') \<Rightarrow> w'\<lparr>console := console w' @ [MasterAppendWarning firstSheetName]\<rparr>
      | (Inr _, w') \<Rightarrow> w')"

definition companyWrite ::
    "serviceAccountKey \<Rightarrow> orderLine \<Rightarrow> sheetRow \<Rightarrow> world \<Rightarrow> (error + unit) \<times> world" where
  "companyWrite key item r w =
     (case ensureSheetExists key (company item) w of
        (Inl e, w1) \<Rightarrow> (Inl e, w1)
      | (Inr _, w1) \<Rightarrow> valuesAppend (company item) r w1)"

definition appendItem ::
    "serviceAccountKey \<Rightarrow> jsstring \<Rightarrow> jsstring \<Rightarrow> orderLine \<Rightarrow> world \<Rightarrow> (error + unit) \<times> world" where
  "appendItem key firstSheetName now item w =
     (let r = makeRow now item;
          w1 = masterWrite firstSheetName r w
      in case companyWrite key item r w1 of
           (Inl e, w2) \<Rightarrow> (Inl e, w2\<lparr>console := console w2 @ [CompanyAppendError (company item)]\<rparr>)
         | (Inr u, w2) \<Rightarrow> (Inr u, w2))"

text \<open>
  The loop over \<open>dataList\<close>; \<open>clock i\<close> is the local time read for the item at
  position \<open>i\<close>. The first item that throws ends the loop.
\<close>

fun appendItems ::
    "serviceAccountKey \<Rightarrow> jsstring \<Rightarrow> (nat \<Rightarrow> jsstring) \<Rightarrow> nat \<Rightarrow> orderLine list \<Rightarrow> world
      \<Rightarrow> (error + unit) \<times> world" where
  "appendItems key firstSheetName clock i [] w = (Inr (), w)"
| "appendItems key firstSheetName clock i (item # items) w =
     (case appendItem key firstSheetName (clock i) item w of
        (Inl e, w') \<Rightarrow> (Inl e, w')
      | (Inr _, w') \<Rightarrow> appendItems key firstSheetName clock (Suc i) items w')"

text \<open>The \<open>try\<close> block of \<open>appendData\<close>, and the function with its \<open>catch\<close>.\<close>

definition appendBody ::
    "serviceAccountKey \<Rightarrow> (nat \<Rightarrow> jsstring) \<Rightarrow> orderLine list \<Rightarrow> world \<Rightarrow> (error + unit) \<times> world" where
  "appendBody key clock dataList w =
     (case sheetsGet w of
        (Inl e, w1) \<Rightarrow> (Inl e, w1)
      | (Inr titles, w1) \<Rightarrow>
          (case titles of
             [] \<Rightarrow> (Inl TypeError, w1)
           | firstSheetName # _ \<Rightarrow> appendItems key firstSheetName clock 0 dataList w1))"

definition appendData ::
    "serviceAccountKey \<Rightarrow> (nat \<Rightarrow> jsstring) \<Rightarrow> orderLine list \<Rightarrow> world \<Rightarrow> (error + unit) \<times> world" where
  "appendData key clock dataList w =
     (case getSheetsClient key w of
        (Inl e, w0) \<Rightarrow> (Inl e, w0)
      | (Inr _, w0) \<Rightarrow>
          (case appendBody key clock dataList w0 of
             (Inl e, w1) \<Rightarrow> (Inl e, w1\<lparr>console := console w1 @ [AppendDataError]\<rparr>)
           | (Inr u, w1) \<Rightarrow> (Inr u, w1)))"

















section \<open>Sample spreadsheets\<close>

text \<open>
  Rows as \<open>appendData\<close> writes them for one message, a row with a remark, a row of
  another message, and a row whose company cell happens to read like the timestamp of
  the first message.
\<close>

definition sampleTs :: jsstring where
  "sampleTs = js ''1700000000.000100''"


definition sampleNow :: jsstring where
  "sampleNow = js ''2024. 5. 1.''"

definition sampleClock :: "nat \<Rightarrow> jsstring" where
  "sampleClock i = sampleNow"

definition sampleItem :: orderLine where
  "sampleItem = \<lparr>company = js ''acme'', product = js ''big'', count = 3, ts = Some sampleTs\<rparr>"

definition matchingRow :: sheetRow where
  "matchingRow = makeRow sampleNow sampleItem"






definition freshWorld :: "nat option list \<Rightarrow> world" where
  "freshWorld fs = \<lparr>sheets = [(js ''orders'', [headerRow])], faults = fs, console = []\<rparr>"

section \<open>Well-formed messages\<close>

text \<open>
  The words of the specification for a well-formed message, independent of the parser: a
  token is a non-empty string without white space, a literal integer is a run of decimal
  digits with an optional sign, and \<open>unwordsJs\<close> joins tokens with single spaces.
\<close>

definition isToken :: "jsstring \<Rightarrow> bool" where
  "isToken t = (t \<noteq> [] \<and> list_all (\<lambda>c. \<not> isWhiteSpace c) t)"

definition isDecimalDigit :: "nat \<Rightarrow> bool" where
  "isDecimalDigit c = (48 \<le> c \<and> c \<le> 57)"

definition decimalLiteral :: "jsstring \<Rightarrow> nat option" where
  "decimalLiteral s =
     (if s \<noteq> [] \<and> list_all isDecimalDigit s
      then Some (foldl (\<lambda>a c. 10 * a + (c - 48)) 0 s) else None)"

definition integerLiteral :: "jsstring \<Rightarrow> int option" where
  "integerLiteral s =
     (case s of
        [] \<Rightarrow> None
      | c # r \<Rightarrow>
          if c = 45 then map_option (\<lambda>n. - int n) (decimalLiteral r)
          else if c = 43 then map_option int (decimalLiteral r)
          else map_option int (decimalLiteral s))"

fun unwordsJs :: "jsstring list \<Rightarrow> jsstring" where
  "unwordsJs [] = []"
| "unwordsJs [t] = t"
| "unwordsJs (t # u # us) = t @ 32 # unwordsJs (u # us)"

section \<open>Sample surroundings of the AI parser\<close>

text \<open>
  Three extraction services: one whose call fails, one that answers in prose, one that
  answers with a fenced JSON array. \<open>sampleJsonParse\<close> is \<open>JSON.parse\<close> on the two
  texts that these services lead to.
\<close>

definition notJsonText :: jsstring where
  "notJsonText = js ''Sorry, I cannot help.''"

definition sampleJsonText :: jsstring where
  "sampleJsonText = js ''[{'' @ [34] @ js ''count'' @ [34] @ js '':-1}]''"

definition fencedReply :: jsstring where
  "fencedReply = fenceJson @ [10] @ sampleJsonText @ [10] @ fence"

definition sampleJsonParse :: "jsstring \<Rightarrow> jsval option" where
  "sampleJsonParse s =
     (if s = sampleJsonText then Some (JArr [JObj [(js ''count'', JNum (- 1))]]) else None)"

definition deadService :: "jsstring \<Rightarrow> jsstring option" where
  "deadService prompt = None"

definition chattyService :: "jsstring \<Rightarrow> jsstring option" where
  "chattyService prompt = Some notJsonText"

definition fencingService :: "jsstring \<Rightarrow> jsstring option" where
  "fencingService prompt = Some fencedReply"

definition envNoKey :: aiEnv where
  "envNoKey = \<lparr>GEMINI_API_KEY = None, generateContent = deadService, jsonParse = sampleJsonParse\<rparr>"

definition envChatty :: aiEnv where
  "envChatty = \<lparr>GEMINI_API_KEY = Some (js ''key''), generateContent = chattyService,
                 jsonParse = sampleJsonParse\<rparr>"

definition envFencing :: aiEnv where
  "envFencing = \<lparr>GEMINI_API_KEY = Some (js ''key''), generateContent = fencingService,
                 jsonParse = sampleJsonParse\<rparr>"


section \<open>Properties of the normalizer\<close>

lemma normalizeProduct_keyBig: "normalizeProduct keyBig = keyBig"
  by (simp add: mapping_def normalizeProduct_def entryMatches_def keyBig_def keyGreen_def
      keyBlue_def trim_def isWhiteSpace_def)

lemma normalizeProduct_keyGreen: "normalizeProduct keyGreen = keyGreen"
  by (simp add: mapping_def normalizeProduct_def entryMatches_def keyBig_def keyGreen_def
      keyBlue_def trim_def isWhiteSpace_def)

lemma normalizeProduct_keyBlue: "normalizeProduct keyBlue = keyBlue"
  by (simp add: mapping_def normalizeProduct_def entryMatches_def keyBig_def keyGreen_def
      keyBlue_def trim_def isWhiteSpace_def)

lemma normalizeProduct_key:
  assumes "e \<in> set mapping"
  shows "normalizeProduct (fst e) = fst e"
proof -
  from assms have "fst e = keyBig \<or> fst e = keyGreen \<or> fst e = keyBlue"
    by (auto simp: mapping_def)
  then show ?thesis
    using normalizeProduct_keyBig normalizeProduct_keyGreen normalizeProduct_keyBlue by auto
qed

text \<open>
  C9. The normalizer is idempotent: normalizing a string that is already the result of
  normalizing gives that string again. A result is either a key of the table, which the
  table sends to itself, or the argument that no entry matched.
\<close>

theorem normalizeProduct_idempotent:
  "normalizeProduct (normalizeProduct x) = normalizeProduct x"
proof (cases "x = []")
  case True
  then show ?thesis by (simp add: normalizeProduct_def)
next
  case False
  show ?thesis
  proof (cases "find (entryMatches (trim x)) mapping")
    case None
    with False have "normalizeProduct x = x" by (simp add: normalizeProduct_def)
    then show ?thesis by simp
  next
    case (Some e)
    then have "e \<in> set mapping" by (auto simp: find_Some_iff in_set_conv_nth)
    moreover from Some False have "normalizeProduct x = fst e"
      by (simp add: normalizeProduct_def)
    ultimately show ?thesis by (simp add: normalizeProduct_key)
  qed
qed

section \<open>Properties of the fast parser\<close>

lemmas parse_eval =
  fastParse_def js_def trim_def trimStart_def isWhiteSpace_def parseInt_def parseUnsigned_def
  parseDigits_def isRadixDigit_def digitValue_def digitsValue_def normalizeProduct_def
  mapping_def entryMatches_def keyBig_def keyGreen_def keyBlue_def

lemma fastLoop_company:
  "fastLoop c toks acc = Some rs \<Longrightarrow> \<forall>l \<in> set acc. company l = c
     \<Longrightarrow> \<forall>l \<in> set rs. company l = c"
  by (induction c toks acc rule: fastLoop.induct) (auto split: if_splits option.splits)


text \<open>
  C10. \<open>fastParse\<close> never returns an empty sequence: the result is \<open>null\<close> or a list
  of at least one line, and every line of a result carries as its company the first
  white-space separated token of the (trimmed) input.
\<close>

theorem fastParse_company_nonempty:
  "fastParse text \<noteq> Some [] \<and>
   (\<forall>ls. fastParse text = Some ls \<longrightarrow>
      (\<forall>l \<in> set ls. company l = hd (splitWs (trim text))))"
proof -
  have "fastParse text \<noteq> Some []"
    by (auto simp: fastParse_def Let_def split: option.splits)
  moreover have "\<forall>l \<in> set ls. company l = hd (splitWs (trim text))"
    if "fastParse text = Some ls" for ls
    using that fastLoop_company[of "hd (splitWs (trim text))" "tl (splitWs (trim text))" "[]" ls]
    by (auto simp: fastParse_def Let_def split: option.splits if_splits)
  ultimately show ?thesis by blast
qed

theorem fastParse_company_nonempty_witness:
  "fastParse (js ''acme big 3 green 2'') =
     Some [\<lparr>company = js ''acme'', product = js ''big'', count = 3, ts = None\<rparr>,
           \<lparr>company = js ''acme'', product = js ''green'', count = 2, ts = None\<rparr>]
   \<and> hd (splitWs (trim (js ''acme big 3 green 2''))) = js ''acme''
   \<and> map company (the (fastParse (js ''acme big 3 green 2''))) = [js ''acme'', js ''acme'']"
proof -
  let ?ls = "[\<lparr>company = js ''acme'', product = js ''big'', count = 3, ts = None\<rparr>,
           \<lparr>company = js ''acme'', product = js ''green'', count = 2, ts = None\<rparr>]"
  have h: "fastParse (js ''acme big 3 green 2'') = Some ?ls"
    by (simp add: parse_eval)
  have t: "hd (splitWs (trim (js ''acme big 3 green 2''))) = js ''acme''"
    by (simp add: parse_eval)
  from fastParse_company_nonempty[of "js ''acme big 3 green 2''"] h
  have "\<forall>l \<in> set ?ls. company l = hd (splitWs (trim (js ''acme big 3 green 2'')))"
    by blast
  with t have "map company ?ls = [js ''acme'', js ''acme'']" by simp
  with h t show ?thesis by simp
qed



lemma digitsValue_decimal:
  "list_all isDecimalDigit s \<Longrightarrow>
     foldl (\<lambda>acc c. acc * 10 + the (digitValue c)) a s = foldl (\<lambda>a c. 10 * a + (c - 48)) a s"
  by (induction s arbitrary: a) (auto simp: isDecimalDigit_def digitValue_def mult.commute)

lemma takeWhile_decimal:
  "list_all isDecimalDigit s \<Longrightarrow> takeWhile (isRadixDigit 10) s = s"
  by (induction s) (auto simp: isDecimalDigit_def isRadixDigit_def digitValue_def)

lemma parseUnsigned_decimal:
  assumes "decimalLiteral s = Some n"
  shows "parseUnsigned s = Some n"
proof -
  from assms have ne: "s \<noteq> []" and all: "list_all isDecimalDigit s"
    and n: "n = foldl (\<lambda>a c. 10 * a + (c - 48)) 0 s"
    by (auto simp: decimalLiteral_def split: if_splits)
  have pd: "parseDigits 10 s = Some n"
    using ne all n
    by (simp add: parseDigits_def takeWhile_decimal digitsValue_def digitsValue_decimal)
  show ?thesis
  proof (cases s)
    case Nil
    with ne show ?thesis by simp
  next
    case (Cons c t)
    show ?thesis
    proof (cases t)
      case Nil
      with Cons pd show ?thesis by (simp add: parseUnsigned_def)
    next
      case (Cons d rest)
      with \<open>s = c # t\<close> all have "isDecimalDigit d" by simp
      then have "d \<noteq> 120 \<and> d \<noteq> 88" by (auto simp: isDecimalDigit_def)
      with Cons \<open>s = c # t\<close> pd show ?thesis by (simp add: parseUnsigned_def)
    qed
  qed
qed

lemma decimalLiteral_head:
  "decimalLiteral (c # r) = Some n \<Longrightarrow> isDecimalDigit c"
  by (auto simp: decimalLiteral_def split: if_splits)

text \<open>On a literal integer, \<open>parseInt\<close> reads the integer that the literal writes.\<close>

lemma parseInt_integerLiteral:
  assumes "integerLiteral s = Some n"
  shows "parseInt s = Some n"
proof (cases s)
  case Nil
  with assms show ?thesis by (simp add: integerLiteral_def)
next
  case (Cons c r)
  have nws: "\<not> isWhiteSpace c"
  proof (cases "c = 45 \<or> c = 43")
    case True
    then show ?thesis by (auto simp: isWhiteSpace_def)
  next
    case False
    with assms Cons obtain m where "decimalLiteral (c # r) = Some m"
      by (auto simp: integerLiteral_def)
    then have "isDecimalDigit c" by (rule decimalLiteral_head)
    then show ?thesis by (auto simp: isDecimalDigit_def isWhiteSpace_def)
  qed
  then have ts: "trimStart s = c # r" using Cons by (simp add: trimStart_def)
  show ?thesis
    using assms Cons ts
    by (auto simp: integerLiteral_def parseInt_def parseUnsigned_decimal split: if_splits)
qed

lemma fastLoop_pairs:
  assumes "\<forall>(p, c) \<in> set pairs. p \<noteq> [] \<and> integerLiteral c \<noteq> None"
  shows "fastLoop cname (concat (map (\<lambda>(p, c). [p, c]) pairs)) acc =
    Some (acc @ map (\<lambda>(p, c). \<lparr>company = cname, product = normalizeProduct p,
                                count = the (integerLiteral c), ts = None\<rparr>) pairs)"
  using assms
proof (induction pairs arbitrary: acc)
  case Nil
  then show ?case by simp
next
  case (Cons pc pairs)
  obtain p c where pc: "pc = (p, c)" by (cases pc)
  with Cons.prems obtain n where "p \<noteq> []" "integerLiteral c = Some n" by auto
  moreover from this have "parseInt c = Some n" by (simp add: parseInt_integerLiteral)
  ultimately show ?case using Cons pc by simp
qed

lemma fastParse_pairs:
  assumes "splitWs (trim text) = cname # concat (map (\<lambda>(p, c). [p, c]) pairs)"
    and "pairs \<noteq> []"
    and "\<forall>(p, c) \<in> set pairs. p \<noteq> [] \<and> integerLiteral c \<noteq> None"
  shows "fastParse text =
    Some (map (\<lambda>(p, c). \<lparr>company = cname, product = normalizeProduct p,
                          count = the (integerLiteral c), ts = None\<rparr>) pairs)"
proof -
  obtain p c ps where ps: "pairs = (p, c) # ps" using assms(2) by (cases pairs) auto
  have len: "\<not> length (splitWs (trim text)) < 3" using assms(1) ps by simp
  show ?thesis
    using len assms(1) fastLoop_pairs[OF assms(3), of cname "[]"] assms(2)
    by (simp add: fastParse_def Let_def)
qed

text \<open>When the fast parser succeeds, the pipeline returns its lines and does nothing else.\<close>

lemma parseMessage_fast:
  "fastParse text = Some ls \<Longrightarrow> parseMessage env text = (Inr (FastLines ls), [])"
  by (simp add: parseMessage_def)

subsection \<open>Messages joined by single spaces split into their tokens\<close>

lemma splitWs_token: "list_all (\<lambda>c. \<not> isWhiteSpace c) t \<Longrightarrow> splitWs t = [t]"
  by (induction t) auto

lemma space_is_white: "isWhiteSpace 32"
  by (simp add: isWhiteSpace_def)

lemma splitWs_token_space:
  assumes "list_all (\<lambda>c. \<not> isWhiteSpace c) t" and "u \<noteq> []" and "\<not> isWhiteSpace (hd u)"
  shows "splitWs (t @ 32 # u) = t # splitWs u"
  using assms
proof (induction t)
  case Nil
  then show ?case using space_is_white by (cases u) auto
next
  case (Cons c t)
  then show ?case by simp
qed

lemma unwordsJs_hd:
  "toks \<noteq> [] \<Longrightarrow> \<forall>t \<in> set toks. isToken t \<Longrightarrow>
     unwordsJs toks \<noteq> [] \<and> hd (unwordsJs toks) = hd (hd toks)"
  by (induction toks rule: unwordsJs.induct) (auto simp: isToken_def)

lemma unwordsJs_last:
  "toks \<noteq> [] \<Longrightarrow> \<forall>t \<in> set toks. isToken t \<Longrightarrow>
     last (unwordsJs toks) = last (last toks)"
proof (induction toks rule: unwordsJs.induct)
  case (3 t u us)
  then have "unwordsJs (u # us) \<noteq> []" using unwordsJs_hd[of "u # us"] by simp
  with 3 show ?case by simp
qed simp_all

lemma isToken_ends: "isToken t \<Longrightarrow> \<not> isWhiteSpace (hd t) \<and> \<not> isWhiteSpace (last t)"
  by (cases t) (auto simp: isToken_def list_all_iff)

lemma trim_id:
  assumes "s \<noteq> []" and "\<not> isWhiteSpace (hd s)" and "\<not> isWhiteSpace (last s)"
  shows "trim s = s"
proof -
  from assms(1,2) have a: "dropWhile isWhiteSpace s = s" by (cases s) auto
  from assms(1,3) have "dropWhile isWhiteSpace (rev s) = rev s"
    by (cases s rule: rev_cases) auto
  with a show ?thesis by (simp add: trim_def)
qed

lemma splitWs_unwordsJs:
  "toks \<noteq> [] \<Longrightarrow> \<forall>t \<in> set toks. isToken t \<Longrightarrow> splitWs (unwordsJs toks) = toks"
proof (induction toks rule: unwordsJs.induct)
  case 1
  then show ?case by simp
next
  case (2 t)
  then show ?case by (simp add: isToken_def splitWs_token)
next
  case (3 t u us)
  then have ih: "splitWs (unwordsJs (u # us)) = u # us" by simp
  from 3 have "unwordsJs (u # us) \<noteq> [] \<and> hd (unwordsJs (u # us)) = hd (hd (u # us))"
    by (intro unwordsJs_hd) auto
  moreover from 3 have "\<not> isWhiteSpace (hd u)" using isToken_ends[of u] by simp
  moreover from 3 have "list_all (\<lambda>c. \<not> isWhiteSpace c) t" by (simp add: isToken_def)
  ultimately have "splitWs (t @ 32 # unwordsJs (u # us)) = t # splitWs (unwordsJs (u # us))"
    by (intro splitWs_token_space) auto
  with ih show ?case by simp
qed

lemma splitWs_trim_unwordsJs:
  assumes "toks \<noteq> []" and "\<forall>t \<in> set toks. isToken t"
  shows "splitWs (trim (unwordsJs toks)) = toks"
proof -
  from assms have a: "unwordsJs toks \<noteq> []" "hd (unwordsJs toks) = hd (hd toks)"
    using unwordsJs_hd by auto
  from assms have b: "last (unwordsJs toks) = last (last toks)" by (rule unwordsJs_last)
  from assms have "isToken (hd toks)" "isToken (last toks)" by auto
  with a b have "trim (unwordsJs toks) = unwordsJs toks"
    using isToken_ends by (intro trim_id) auto
  with assms show ?thesis by (simp add: splitWs_unwordsJs)
qed


lemma decimalLiteral_token: "decimalLiteral s = Some n \<Longrightarrow> isToken s"
  by (auto simp: decimalLiteral_def isToken_def list_all_iff isDecimalDigit_def isWhiteSpace_def
      split: if_splits)

lemma integerLiteral_token:
  assumes "integerLiteral s \<noteq> None"
  shows "isToken s"
proof (cases s)
  case Nil
  with assms show ?thesis by (simp add: integerLiteral_def)
next
  case (Cons c r)
  show ?thesis
  proof (cases "c = 45 \<or> c = 43")
    case True
    with assms Cons obtain n where "decimalLiteral r = Some n"
      by (auto simp: integerLiteral_def split: if_splits)
    then have "isToken r" by (rule decimalLiteral_token)
    with True Cons show ?thesis by (auto simp: isToken_def isWhiteSpace_def)
  next
    case False
    with assms Cons obtain n where "decimalLiteral s = Some n"
      by (auto simp: integerLiteral_def)
    then show ?thesis by (rule decimalLiteral_token)
  qed
qed

text \<open>The same for a message written with single spaces between its tokens.\<close>

lemma parseMessage_fast_path_unwords:
  assumes "isToken cname" and "pairs \<noteq> []"
    and "\<forall>(p, c) \<in> set pairs. isToken p \<and> integerLiteral c \<noteq> None"
  shows "parseMessage env (unwordsJs (cname # concat (map (\<lambda>(p, c). [p, c]) pairs))) =
    (Inr (FastLines (map (\<lambda>(p, c). \<lparr>company = cname, product = normalizeProduct p,
                                     count = the (integerLiteral c), ts = None\<rparr>) pairs)), [])"
proof -
  let ?toks = "cname # concat (map (\<lambda>(p, c). [p, c]) pairs)"
  have "\<forall>t \<in> set ?toks. isToken t"
    using assms(1,3) integerLiteral_token by auto
  then have "splitWs (trim (unwordsJs ?toks)) = ?toks"
    by (intro splitWs_trim_unwordsJs) auto
  moreover have "\<forall>(p, c) \<in> set pairs. p \<noteq> [] \<and> integerLiteral c \<noteq> None"
    using assms(3) by (auto simp: isToken_def)
  ultimately show ?thesis
    using assms(2) by (intro parseMessage_fast fastParse_pairs) auto
qed


section \<open>Properties of the AI fallback parser\<close>

lemmas ai_eval = aiParse_def keyPresent_def decodeReply_def mapItem_def setProp_def
  envNoKey_def envChatty_def envFencing_def deadService_def chattyService_def
  fencingService_def sampleJsonParse_def sampleJsonText_def fencedReply_def notJsonText_def
  fenceJson_def fence_def js_def trim_def isWhiteSpace_def

text \<open>
  C2, as the claim states it, fails: with no key configured \<open>aiParse\<close> throws before
  it enters its \<open>try\<close> block, and the error reaches the caller.
\<close>

theorem aiParse_missing_key_counterexample:
  "\<not> keyPresent envNoKey
   \<and> fst (aiParse envNoKey (js ''hello there'')) = Inl MissingGeminiKey
   \<and> fst (aiParse envNoKey (js ''hello there'')) \<noteq> Inr []"
  by (simp add: ai_eval)

text \<open>
  C2, amended. With no key (absent or empty) \<open>aiParse\<close> throws the missing-key error.
  With a key, every failure after that is answered with the empty array and nothing is
  thrown: a failing call of the service, a reply that \<open>JSON.parse\<close> rejects, a decoded
  value that is not an array, and an item on which the mapping throws.
\<close>

theorem aiParse_failure_modes:
  "(\<not> keyPresent env \<longrightarrow> fst (aiParse env text) = Inl MissingGeminiKey)
   \<and> (keyPresent env \<and>
        (generateContent env text = None
         \<or> (\<exists>raw. generateContent env text = Some raw
              \<and> (jsonParse env (trim (stripFences raw)) = None
                  \<or> (\<exists>v. jsonParse env (trim (stripFences raw)) = Some v
                        \<and> (\<forall>items. v \<noteq> JArr items))
                  \<or> (\<exists>items e. jsonParse env (trim (stripFences raw)) = Some (JArr items)
                        \<and> mapItems items = Inl e))))
       \<longrightarrow> fst (aiParse env text) = Inr [])"
  by (auto simp: aiParse_def decodeReply_def split: option.splits sum.splits jsval.splits)

theorem aiParse_failure_modes_witness:
  "\<not> keyPresent envNoKey
   \<and> fst (aiParse envNoKey (js ''hello there'')) = Inl MissingGeminiKey
   \<and> keyPresent envChatty
   \<and> generateContent envChatty (js ''hello there'') = Some notJsonText
   \<and> jsonParse envChatty (trim (stripFences notJsonText)) = None
   \<and> fst (aiParse envChatty (js ''hello there'')) = Inr []"
proof -
  have a: "\<not> keyPresent envNoKey" by (simp add: ai_eval)
  have b: "keyPresent envChatty" by (simp add: ai_eval)
  have c: "generateContent envChatty (js ''hello there'') = Some notJsonText"
    by (simp add: envChatty_def chattyService_def)
  have d: "jsonParse envChatty (trim (stripFences notJsonText)) = None"
    by (simp add: ai_eval)
  from aiParse_failure_modes[of envNoKey "js ''hello there''"] a
  have e: "fst (aiParse envNoKey (js ''hello there'')) = Inl MissingGeminiKey" by blast
  from aiParse_failure_modes[of envChatty "js ''hello there''"] b c d
  have f: "fst (aiParse envChatty (js ''hello there'')) = Inr []" by blast
  from a b c d e f show ?thesis by blast
qed

section \<open>The count of a parsed line\<close>










section \<open>Properties of the event deduplicator\<close>

text \<open>
  What \<open>shouldSkipEvent\<close> does to the set: it never leaves more than \<open>CACHE_SIZE\<close>
  identities in a set that had no more, and on a full set it drops the identity inserted
  first and adds the new one at the end.
\<close>

lemma evict_first_bounded:
  assumes "length added \<le> Suc CACHE_SIZE" and "added = firstItem # more_items"
  shows "length (setDelete added firstItem) \<le> CACHE_SIZE"
proof -
  have "length (removeAll firstItem more_items) \<le> length more_items"
    by (rule length_removeAll_less_eq)
  moreover from assms have "length more_items \<le> CACHE_SIZE" by simp
  ultimately have "length (removeAll firstItem more_items) \<le> CACHE_SIZE"
    by (rule le_trans)
  with assms(2) show ?thesis by (simp add: setDelete_def)
qed

lemma setAdd_length: "length (setAdd s x) \<le> Suc (length s)"
  by (simp add: setAdd_def)

lemma shouldSkipEvent_bounded:
  assumes "length pe \<le> CACHE_SIZE"
  shows "length (snd (shouldSkipEvent dateNow body pe)) \<le> CACHE_SIZE"
proof -
  have step: "length (snd (let added = setAdd pe eid in
                     if length added > CACHE_SIZE then
                       (case added of
                          [] \<Rightarrow> (False, added)
                        | firstItem # _ \<Rightarrow> (False, setDelete added firstItem))
                     else (False, added))) \<le> CACHE_SIZE" for eid
  proof (cases "setAdd pe eid")
    case Nil
    then show ?thesis by (simp add: Let_def)
  next
    case (Cons firstItem more_items)
    have "length (setAdd pe eid) \<le> Suc CACHE_SIZE"
      using setAdd_length[of pe eid] assms by simp
    from evict_first_bounded[OF this Cons] Cons show ?thesis by (simp add: Let_def)
  qed
  show ?thesis
  proof (cases body)
    case None
    with assms show ?thesis by (simp add: shouldSkipEvent_def)
  next
    case (Some b)
    show ?thesis
    proof (cases "event_id b")
      case None
      with Some assms show ?thesis by (simp add: shouldSkipEvent_def)
    next
      case (Some eid)
      have "snd (shouldSkipEvent dateNow body pe) = pe
            \<or> snd (shouldSkipEvent dateNow body pe) =
                snd (let added = setAdd pe eid in
                     if length added > CACHE_SIZE then
                       (case added of
                          [] \<Rightarrow> (False, added)
                        | firstItem # _ \<Rightarrow> (False, setDelete added firstItem))
                     else (False, added))"
        using Some \<open>body = Some b\<close> by (simp add: shouldSkipEvent_def)
      with assms step[of eid] show ?thesis by auto
    qed
  qed
qed

lemma shouldSkipEvent_evicts_oldest:
  assumes "distinct (old # pe)" and "length (old # pe) = CACHE_SIZE"
    and "eid \<noteq> []" and "eid \<notin> set (old # pe)"
    and "event_id b = Some eid" and "event_time b = None"
  shows "shouldSkipEvent dateNow (Some b) (old # pe) = (False, pe @ [eid])"
  using assms
  by (auto simp: shouldSkipEvent_def setAdd_def setDelete_def setHas_def Let_def)

lemma approveClicks_distinct:
  "distinct (pe @ ids) \<Longrightarrow> approveClicks ids pe = pe @ ids"
proof (induction ids arbitrary: pe)
  case Nil
  then show ?case by simp
next
  case (Cons t ids)
  then have "approveOrderDedup t pe = (False, pe @ [t])"
    by (simp add: approveOrderDedup_def setHas_def setAdd_def)
  moreover from Cons.prems have "distinct ((pe @ [t]) @ ids)" by simp
  ultimately show ?case using Cons.IH[of "pe @ [t]"] by simp
qed

lemma showNat_digits_nonempty: "showNat n \<noteq> []"
  by (subst showNat.simps) simp

lemma showNat_last: "last (showNat n) = 48 + n mod 10"
  by (subst showNat.simps) (simp add: showNat_digits_nonempty)

lemma showNat_butlast: "10 \<le> n \<Longrightarrow> butlast (showNat n) = showNat (n div 10)"
  by (subst showNat.simps) (simp add: butlast_append)

lemma showNat_length1: "n < 10 \<Longrightarrow> length (showNat n) = 1"
  by (subst showNat.simps) simp

lemma showNat_length2: "10 \<le> n \<Longrightarrow> length (showNat n) \<ge> 2"
proof -
  assume a: "10 \<le> n"
  have "length (showNat (n div 10)) \<ge> 1" using showNat_digits_nonempty[of "n div 10"]
    by (cases "showNat (n div 10)") auto
  with a show ?thesis by (subst showNat.simps) simp
qed

lemma showNat_inj: "showNat m = showNat n \<Longrightarrow> m = n"
proof (induction m arbitrary: n rule: less_induct)
  case (less m)
  show ?case
  proof (cases "m < 10")
    case True
    then have "length (showNat n) = 1" using less.prems showNat_length1[of m] by simp
    then have "n < 10" using showNat_length2[of n] by (cases "n < 10") auto
    with True less.prems show ?thesis
      by (subst (asm) showNat.simps, subst (asm) (2) showNat.simps) simp
  next
    case False
    then have "length (showNat n) \<ge> 2" using less.prems showNat_length2[of m] by simp
    then have n: "10 \<le> n" using showNat_length1[of n] by (cases "n < 10") auto
    from False have m: "10 \<le> m" by simp
    from less.prems have "butlast (showNat m) = butlast (showNat n)" by simp
    then have "showNat (m div 10) = showNat (n div 10)" using m n by (simp add: showNat_butlast)
    then have d: "m div 10 = n div 10" using less.IH[of "m div 10" "n div 10"] m by simp
    from less.prems have "last (showNat m) = last (showNat n)" by simp
    then have "m mod 10 = n mod 10" by (simp add: showNat_last)
    with d show ?thesis by (metis div_mult_mod_eq)
  qed
qed

lemma triggerIds_distinct: "distinct (triggerIds n)"
  by (auto simp: triggerIds_def distinct_map inj_on_def dest: showNat_inj)

text \<open>
  C3. The set is meant to hold at most \<open>CACHE_SIZE = 100\<close> identities after every
  operation on it, button clicks included. The approve handler adds its trigger id
  without the eviction that \<open>shouldSkipEvent\<close> performs: after 101 clicks with the
  trigger ids \<open>T0\<close>, ..., \<open>T100\<close> on the empty set, the set holds 101 identities.
\<close>

theorem approve_order_overflows_cache:
  "length (approveClicks (triggerIds 101) []) = 101
   \<and> CACHE_SIZE < length (approveClicks (triggerIds 101) [])"
proof -
  have "approveClicks (triggerIds 101) [] = triggerIds 101"
    using approveClicks_distinct[of "[]" "triggerIds 101"] triggerIds_distinct by simp
  then show ?thesis by (simp add: triggerIds_def CACHE_SIZE_def)
qed

section \<open>Properties of the sheet operations\<close>

subsection \<open>Deleting by timestamp\<close>

















subsection \<open>Failures while appending\<close>

lemma takeFault_console: "console (snd (takeFault w)) = console w"
  by (simp add: takeFault_def split: list.splits)

lemma sheetsGet_console: "console (snd (sheetsGet w)) = console w"
  using takeFault_console[of w]
  by (auto simp: sheetsGet_def split: prod.splits option.splits)

lemma addSheet_console: "console (snd (addSheet name w)) = console w"
  using takeFault_console[of w]
  by (auto simp: addSheet_def split: prod.splits option.splits)

lemma valuesUpdateA1_console: "console (snd (valuesUpdateA1 name r w)) = console w"
  using takeFault_console[of w]
  by (auto simp: valuesUpdateA1_def split: prod.splits option.splits)

lemma valuesAppend_console: "console (snd (valuesAppend name r w)) = console w"
  using takeFault_console[of w]
  by (auto simp: valuesAppend_def split: prod.splits option.splits)

lemma ensureBody_console: "console (snd (ensureBody name w)) = console w"
proof -
  have a: "console (snd (sheetsGet w)) = console w" by (rule sheetsGet_console)
  have b: "console (snd (addSheet name w1)) = console w1" for w1 by (rule addSheet_console)
  have c: "console (snd (valuesUpdateA1 name headerRow w2)) = console w2" for w2
    by (rule valuesUpdateA1_console)
  show ?thesis
  proof (cases "sheetsGet w")
    case (Pair r w1)
    with a have w1: "console w1 = console w" by simp
    show ?thesis
    proof (cases r)
      case (Inl e)
      with Pair w1 show ?thesis by (simp add: ensureBody_def)
    next
      case (Inr titles)
      show ?thesis
      proof (cases "addSheet name w1")
        case (Pair r2 w2)
        with b[of w1] w1 have w2: "console w2 = console w" by simp
        from c[of w2] w2 have "console (snd (valuesUpdateA1 name headerRow w2)) = console w"
          by simp
        with Pair w1 w2 Inr \<open>sheetsGet w = (r, w1)\<close> show ?thesis
          by (cases r2) (simp_all add: ensureBody_def)
      qed
    qed
  qed
qed

lemma ensureSheetExists_console:
  "prefix (console w) (console (snd (ensureSheetExists key name w)))"
proof (cases key)
  case GoodKey
  have "console (snd (ensureBody name w)) = console w" by (rule ensureBody_console)
  with GoodKey show ?thesis
    by (cases "ensureBody name w")
       (auto simp: ensureSheetExists_def getSheetsClient_def split: sum.splits)
qed (simp_all add: ensureSheetExists_def getSheetsClient_def)

lemma companyWrite_console:
  "prefix (console w) (console (snd (companyWrite key item r w)))"
proof (cases "ensureSheetExists key (company item) w")
  case (Pair res w1)
  with ensureSheetExists_console[of w key "company item"]
  have p: "prefix (console w) (console w1)" by simp
  show ?thesis
  proof (cases res)
    case (Inl e)
    with Pair p show ?thesis by (simp add: companyWrite_def)
  next
    case (Inr u)
    with Pair p valuesAppend_console[of "company item" r w1] show ?thesis
      by (simp add: companyWrite_def)
  qed
qed

text \<open>
  C8. For the line at any position of the list: when the write to the sheet of the
  company fails (making sure of the sheet, or appending the row), the loop stops there and
  throws that error, which \<open>appendData\<close> throws on to its caller; when only the write
  to the first sheet fails, a warning is logged and the loop goes on with the write to the
  sheet of the company and, when that succeeds, with the next line.
\<close>

theorem append_failure_policy:
  "(companyWrite key item (makeRow (clock i) item)
        (masterWrite firstSheetName (makeRow (clock i) item) w) = (Inl e, w')
      \<longrightarrow> appendItems key firstSheetName clock i (item # items) w
            = (Inl e, w'\<lparr>console := console w' @ [CompanyAppendError (company item)]\<rparr>))
   \<and> (valuesAppend firstSheetName (makeRow (clock i) item) w = (Inl e0, w0)
        \<and> companyWrite key item (makeRow (clock i) item)
             (w0\<lparr>console := console w0 @ [MasterAppendWarning firstSheetName]\<rparr>) = (Inr (), w1)
      \<longrightarrow> appendItems key firstSheetName clock i (item # items) w
            = appendItems key firstSheetName clock (Suc i) items w1
          \<and> MasterAppendWarning firstSheetName \<in> set (console w1))
   \<and> (getSheetsClient key w = (Inr (), wa) \<and> sheetsGet wa = (Inr (firstSheetName # others), wb)
        \<and> appendItems key firstSheetName clock 0 dataList wb = (Inl e, wc)
      \<longrightarrow> appendData key clock dataList w
            = (Inl e, wc\<lparr>console := console wc @ [AppendDataError]\<rparr>))"
proof (intro conjI impI)
  assume "companyWrite key item (makeRow (clock i) item)
        (masterWrite firstSheetName (makeRow (clock i) item) w) = (Inl e, w')"
  then show "appendItems key firstSheetName clock i (item # items) w
            = (Inl e, w'\<lparr>console := console w' @ [CompanyAppendError (company item)]\<rparr>)"
    by (simp add: appendItem_def Let_def)
next
  assume h: "valuesAppend firstSheetName (makeRow (clock i) item) w = (Inl e0, w0)
        \<and> companyWrite key item (makeRow (clock i) item)
             (w0\<lparr>console := console w0 @ [MasterAppendWarning firstSheetName]\<rparr>) = (Inr (), w1)"
  then have m: "masterWrite firstSheetName (makeRow (clock i) item) w
      = w0\<lparr>console := console w0 @ [MasterAppendWarning firstSheetName]\<rparr>"
    by (simp add: masterWrite_def)
  with h show "appendItems key firstSheetName clock i (item # items) w
            = appendItems key firstSheetName clock (Suc i) items w1"
    by (simp add: appendItem_def Let_def)
  from h companyWrite_console[of "w0\<lparr>console := console w0 @ [MasterAppendWarning firstSheetName]\<rparr>"
      key item "makeRow (clock i) item"]
  have "prefix (console w0 @ [MasterAppendWarning firstSheetName]) (console w1)" by simp
  then show "MasterAppendWarning firstSheetName \<in> set (console w1)"
    by (auto simp: prefix_def)
next
  assume "getSheetsClient key w = (Inr (), wa) \<and> sheetsGet wa = (Inr (firstSheetName # others), wb)
        \<and> appendItems key firstSheetName clock 0 dataList wb = (Inl e, wc)"
  then show "appendData key clock dataList w
            = (Inl e, wc\<lparr>console := console wc @ [AppendDataError]\<rparr>)"
    by (simp add: appendData_def appendBody_def)
qed

lemmas api_eval =
  appendData_def appendBody_def appendItem_def masterWrite_def companyWrite_def
  ensureSheetExists_def ensureBody_def getSheetsClient_def wrapSheetError_def sheetsGet_def
  addSheet_def valuesUpdateA1_def valuesAppend_def takeFault_def updateSheet_def
  freshWorld_def sampleClock_def sampleItem_def Let_def

theorem append_failure_policy_witness:
  "companyWrite GoodKey sampleItem (makeRow (sampleClock 0) sampleItem)
      (masterWrite (js ''orders'') (makeRow (sampleClock 0) sampleItem)
         (freshWorld [None, None, None, None, Some 500]))
     = (Inl (ApiError 500),
        \<lparr>sheets = [(js ''orders'', [headerRow, matchingRow]), (js ''acme'', [headerRow])],
         faults = [], console = []\<rparr>)
   \<and> appendItems GoodKey (js ''orders'') sampleClock 0 [sampleItem, sampleItem]
        (freshWorld [None, None, None, None, Some 500])
     = (Inl (ApiError 500),
        \<lparr>sheets = [(js ''orders'', [headerRow, matchingRow]), (js ''acme'', [headerRow])],
         faults = [], console = [CompanyAppendError (js ''acme'')]\<rparr>)
   \<and> valuesAppend (js ''orders'') (makeRow (sampleClock 0) sampleItem) (freshWorld [Some 503])
     = (Inl (ApiError 503), freshWorld [])
   \<and> appendItems GoodKey (js ''orders'') sampleClock 0 [sampleItem] (freshWorld [Some 503])
     = (Inr (),
        \<lparr>sheets = [(js ''orders'', [headerRow]), (js ''acme'', [headerRow, matchingRow])],
         faults = [], console = [MasterAppendWarning (js ''orders'')]\<rparr>)
   \<and> appendData GoodKey sampleClock [sampleItem] (freshWorld [None, None, Some 403])
     = (Inl (SheetError 403),
        \<lparr>sheets = [(js ''orders'', [headerRow, matchingRow])], faults = [],
         console = [SheetAccessError, CompanyAppendError (js ''acme''), AppendDataError]\<rparr>)"
proof -
  let ?row = "makeRow (sampleClock 0) sampleItem"
  let ?wA = "\<lparr>sheets = [(js ''orders'', [headerRow, matchingRow]), (js ''acme'', [headerRow])],
         faults = [], console = []\<rparr>"
  let ?wB = "\<lparr>sheets = [(js ''orders'', [headerRow]), (js ''acme'', [headerRow, matchingRow])],
         faults = [], console = [MasterAppendWarning (js ''orders'')]\<rparr>"
  let ?wC = "\<lparr>sheets = [(js ''orders'', [headerRow, matchingRow])], faults = [],
         console = [SheetAccessError]\<rparr>"
  have ne: "js ''acme'' \<noteq> js ''orders''" "js ''orders'' \<noteq> js ''acme''"
    by (simp_all add: js_def)
  have a: "companyWrite GoodKey sampleItem ?row
      (masterWrite (js ''orders'') ?row (freshWorld [None, None, None, None, Some 500]))
     = (Inl (ApiError 500), ?wA)"
    using ne by (simp add: api_eval matchingRow_def)
  have b1: "valuesAppend (js ''orders'') ?row (freshWorld [Some 503])
     = (Inl (ApiError 503), freshWorld [])"
    by (simp add: api_eval)
  have b2: "companyWrite GoodKey sampleItem ?row
      ((freshWorld [])\<lparr>console := console (freshWorld []) @ [MasterAppendWarning (js ''orders'')]\<rparr>)
     = (Inr (), ?wB)"
    using ne by (simp add: api_eval matchingRow_def)
  have c1: "getSheetsClient GoodKey (freshWorld [None, None, Some 403])
     = (Inr (), freshWorld [None, None, Some 403])"
    by (simp add: getSheetsClient_def)
  have c2: "sheetsGet (freshWorld [None, None, Some 403])
     = (Inr (js ''orders'' # []), freshWorld [None, Some 403])"
    by (simp add: api_eval)
  have c3: "appendItems GoodKey (js ''orders'') sampleClock 0 [sampleItem] (freshWorld [None, Some 403])
     = (Inl (SheetError 403), ?wC\<lparr>console := console ?wC @ [CompanyAppendError (js ''acme'')]\<rparr>)"
    using ne by (simp add: api_eval matchingRow_def)
  note pol = append_failure_policy[of GoodKey sampleItem sampleClock 0 "js ''orders''"]
  from pol[of "freshWorld [None, None, None, None, Some 500]" "ApiError 500" ?wA "[sampleItem]"] a
  have r1: "appendItems GoodKey (js ''orders'') sampleClock 0 [sampleItem, sampleItem]
        (freshWorld [None, None, None, None, Some 500])
     = (Inl (ApiError 500), ?wA\<lparr>console := console ?wA @ [CompanyAppendError (company sampleItem)]\<rparr>)"
    by blast
  from pol[of "freshWorld [Some 503]" _ _ "[]" "ApiError 503" "freshWorld []" ?wB] b1 b2
  have r2: "appendItems GoodKey (js ''orders'') sampleClock 0 [sampleItem] (freshWorld [Some 503])
     = appendItems GoodKey (js ''orders'') sampleClock (Suc 0) [] ?wB"
    by blast
  from pol[of "freshWorld [None, None, Some 403]" "SheetError 403" _ _ _ _ _
      "freshWorld [None, None, Some 403]" "[]" "freshWorld [None, Some 403]" "[sampleItem]"
      "?wC\<lparr>console := console ?wC @ [CompanyAppendError (js ''acme'')]\<rparr>"] c1 c2 c3
  have r3: "appendData GoodKey sampleClock [sampleItem] (freshWorld [None, None, Some 403])
     = (Inl (SheetError 403),
        ?wC\<lparr>console := console ?wC @ [CompanyAppendError (js ''acme'')]\<rparr>
          \<lparr>console := console (?wC\<lparr>console := console ?wC @ [CompanyAppendError (js ''acme'')]\<rparr>)
              @ [AppendDataError]\<rparr>)"
    by blast
  from a r1 b1 r2 r3 show ?thesis by (simp add: sampleItem_def)
qed

subsection \<open>An update deletes and appends\<close>





























end
